theory Spec2Isabelle
  imports Main
begin

section \<open>Settings table (migration \<^verbatim>\<open>20250815120000_create_settings_table.sql\<close>)\<close>

text \<open>
  The migration declares
  \<^verbatim>\<open>settings(key TEXT PRIMARY KEY NOT NULL, value JSONB,
            created_at TIMESTAMPTZ DEFAULT NOW() NOT NULL,
            updated_at TIMESTAMPTZ DEFAULT NOW() NOT NULL)\<close>
  and a row-level \<^verbatim>\<open>BEFORE UPDATE\<close> trigger running \<^verbatim>\<open>set_updated_at_timestamp\<close>.
  A tuple is a record whose columns are all nullable (\<open>None\<close> is SQL \<open>NULL\<close>): the
  \<^verbatim>\<open>NOT NULL\<close> and primary-key constraints are checked after the trigger has run, as
  PostgreSQL does for \<^verbatim>\<open>BEFORE\<close> triggers. The columns carry the prefix \<open>col_\<close>
  because \<open>key\<close> and \<open>updated_at\<close> are also field names of the frontend's types, and
  \<open>value\<close> is a command of the prover. A timestamp is a number of microseconds; the
  value that \<^verbatim>\<open>NOW()\<close> returns in a statement is an argument \<open>now\<close> of that statement.
\<close>

type_synonym timestamptz = int

datatype jsonb =
    JNull
  | JBool bool
  | JNumber int
  | JString string
  | JArray "jsonb list"
  | JObject "(string \<times> jsonb) list"

record settings_row =
  col_key :: "string option"
  col_value :: "jsonb option"
  col_created_at :: "timestamptz option"
  col_updated_at :: "timestamptz option"

type_synonym settings = "settings_row list"

datatype sql_error = NotNullViolation | UniqueViolation

text \<open>
  \<^verbatim>\<open>NEW.updated_at = NOW(); RETURN NEW;\<close>
\<close>

definition set_updated_at_timestamp :: "timestamptz \<Rightarrow> settings_row \<Rightarrow> settings_row" where
  "set_updated_at_timestamp now NEW = NEW\<lparr>col_updated_at := Some now\<rparr>"

text \<open>
  The \<^verbatim>\<open>SET\<close> list of an \<^verbatim>\<open>UPDATE\<close>: for each column, \<open>None\<close> when the statement does
  not assign it, \<open>Some v\<close> when it assigns the (nullable) value \<open>v\<close>.
\<close>

record set_clause =
  set_key :: "string option option"
  set_value :: "jsonb option option"
  set_created_at :: "timestamptz option option"
  set_updated_at :: "timestamptz option option"

definition assign :: "'a option \<Rightarrow> 'a \<Rightarrow> 'a" where
  "assign a old = (case a of None \<Rightarrow> old | Some v \<Rightarrow> v)"

definition apply_set :: "set_clause \<Rightarrow> settings_row \<Rightarrow> settings_row" where
  "apply_set sc OLD =
     \<lparr>col_key = assign (set_key sc) (col_key OLD),
      col_value = assign (set_value sc) (col_value OLD),
      col_created_at = assign (set_created_at sc) (col_created_at OLD),
      col_updated_at = assign (set_updated_at sc) (col_updated_at OLD)\<rparr>"

text \<open>
  \<^verbatim>\<open>CREATE TRIGGER handle_settings_updated_at BEFORE UPDATE ON settings FOR EACH ROW\<close>:
  the tuple that is stored is what the trigger function returns for the tuple the
  statement proposes.
\<close>

definition handle_settings_updated_at :: "timestamptz \<Rightarrow> set_clause \<Rightarrow> settings_row \<Rightarrow> settings_row" where
  "handle_settings_updated_at now sc OLD = set_updated_at_timestamp now (apply_set sc OLD)"

definition not_null_ok :: "settings_row \<Rightarrow> bool" where
  "not_null_ok r = (col_key r \<noteq> None \<and> col_created_at r \<noteq> None \<and> col_updated_at r \<noteq> None)"

definition constraints :: "settings \<Rightarrow> sql_error + settings" where
  "constraints tbl =
     (if \<not> list_all not_null_ok tbl then Inl NotNullViolation
      else if \<not> distinct (map col_key tbl) then Inl UniqueViolation
      else Inr tbl)"

text \<open>
  \<^verbatim>\<open>UPDATE settings SET ... WHERE ...\<close>: the trigger fires for each row the condition
  selects, the other rows are kept, and the statement fails as a whole when a
  constraint is violated.
\<close>

definition sql_update :: "timestamptz \<Rightarrow> (settings_row \<Rightarrow> bool) \<Rightarrow> set_clause \<Rightarrow> settings \<Rightarrow> sql_error + settings" where
  "sql_update now cond sc tbl =
     constraints (map (\<lambda>r. if cond r then handle_settings_updated_at now sc r else r) tbl)"

text \<open>
  \<^verbatim>\<open>INSERT INTO settings (key, value) VALUES (k, v)\<close>: both timestamps take their
  default \<^verbatim>\<open>NOW()\<close>.
\<close>

definition sql_insert :: "timestamptz \<Rightarrow> string option \<Rightarrow> jsonb option \<Rightarrow> settings \<Rightarrow> sql_error + settings" where
  "sql_insert now k v tbl =
     constraints (tbl @ [\<lparr>col_key = k, col_value = v,
                          col_created_at = Some now, col_updated_at = Some now\<rparr>])"

text \<open>The rows the migration inserts into the empty table (the JSON values \<open>null\<close>, \<open>null\<close>, \<open>true\<close>).\<close>

definition seed :: "timestamptz \<Rightarrow> settings" where
  "seed now =
     [\<lparr>col_key = Some ''llm.openai_api_key'', col_value = Some JNull,
       col_created_at = Some now, col_updated_at = Some now\<rparr>,
      \<lparr>col_key = Some ''llm.anthropic_api_key'', col_value = Some JNull,
       col_created_at = Some now, col_updated_at = Some now\<rparr>,
      \<lparr>col_key = Some ''feature.new_tool_system_enabled'', col_value = Some (JBool True),
       col_created_at = Some now, col_updated_at = Some now\<rparr>]"

text \<open>\<^verbatim>\<open>WHERE key = k\<close>\<close>

definition key_is :: "string \<Rightarrow> settings_row \<Rightarrow> bool" where
  "key_is k r = (col_key r = Some k)"

text \<open>
  \<^verbatim>\<open>NOW()\<close> is the start time of the current transaction: every statement of a
  transaction sees the same value. A transaction is the list of its statements; the
  first error aborts it.
\<close>

datatype statement =
    Insert "string option" "jsonb option"
  | Update "settings_row \<Rightarrow> bool" set_clause

fun exec :: "timestamptz \<Rightarrow> statement \<Rightarrow> settings \<Rightarrow> sql_error + settings" where
  "exec now (Insert k v) tbl = sql_insert now k v tbl"
| "exec now (Update cond sc) tbl = sql_update now cond sc tbl"

fun transaction :: "timestamptz \<Rightarrow> statement list \<Rightarrow> settings \<Rightarrow> sql_error + settings" where
  "transaction now [] tbl = Inr tbl"
| "transaction now (st # sts) tbl =
     (case exec now st tbl of Inl err \<Rightarrow> Inl err | Inr tbl' \<Rightarrow> transaction now sts tbl')"

definition lookup :: "settings \<Rightarrow> string \<Rightarrow> settings_row option" where
  "lookup tbl k = find (\<lambda>r. col_key r = Some k) tbl"


section \<open>Frontend state\<close>

subsection \<open>Events\<close>

text \<open>
  The fields of a DOM event that the handlers read or write. \<open>preventDefault()\<close>
  sets \<open>defaultPrevented\<close>.
\<close>

record modifiers =
  metaKey :: bool
  ctrlKey :: bool
  shiftKey :: bool
  altKey :: bool
  defaultPrevented :: bool

record keyboard_event = modifiers +
  key :: string

type_synonym mouse_event = modifiers

definition preventDefault :: "('a modifiers_scheme) \<Rightarrow> ('a modifiers_scheme)" where
  "preventDefault e = e\<lparr>defaultPrevented := True\<rparr>"

text \<open>\<^verbatim>\<open>new CustomEvent(type, { detail: { expanded } })\<close>\<close>

record custom_event =
  event_type :: string
  expanded :: bool

subsection \<open>The state the components share\<close>

text \<open>
  One record holds the state that the components read and write. \<open>sb_open\<close> and
  \<open>openMobile\<close> are the desktop expanded/collapsed flag and the mobile overlay flag of
  the sidebar context (\<^verbatim>\<open>useSidebar\<close>; the flag is called \<^verbatim>\<open>open\<close> there, a keyword of
  the prover); \<open>isMobile\<close> is the evaluation of the viewport width against the
  breakpoint (\<^verbatim>\<open>useIsMobile\<close>); \<open>loadingThreadId\<close> is the
  \<^verbatim>\<open>useState<string | null>(null)\<close> of \<^verbatim>\<open>NavAgents\<close>; \<open>pathname\<close> and \<open>searchParams\<close> are
  what \<^verbatim>\<open>usePathname()\<close> and \<^verbatim>\<open>useSearchParams()\<close> return; \<open>dispatched\<close> is the sequence of
  events given to \<^verbatim>\<open>window.dispatchEvent\<close>, oldest first.
\<close>

record ui =
  sb_open :: bool
  openMobile :: bool
  isMobile :: bool
  loadingThreadId :: "string option"
  pathname :: "string option"
  searchParams :: string
  dispatched :: "custom_event list"

text \<open>
  Modelled from the spec: \<^verbatim>\<open>state\<close> of the hook \<^verbatim>\<open>useSidebar\<close>
  (\<^verbatim>\<open>@/components/ui/sidebar\<close>, not among the sources). It is the string \<^verbatim>\<open>'expanded'\<close> or
  \<^verbatim>\<open>'collapsed'\<close> of the desktop flag.
\<close>

definition state :: "ui \<Rightarrow> string" where
  "state s = (if sb_open s then ''expanded'' else ''collapsed'')"

text \<open>
  Modelled from the spec: \<^verbatim>\<open>setOpen\<close> of the hook \<^verbatim>\<open>useSidebar\<close> (not among the sources).
  It sets the desktop expanded/collapsed flag and nothing else.
\<close>

definition setOpen :: "bool \<Rightarrow> ui \<Rightarrow> ui" where
  "setOpen v s = s\<lparr>sb_open := v\<rparr>"

text \<open>
  Modelled from the spec: \<^verbatim>\<open>setOpenMobile\<close> of the hook \<^verbatim>\<open>useSidebar\<close> (not among the
  sources). It sets the mobile overlay flag and nothing else.
\<close>

definition setOpenMobile :: "bool \<Rightarrow> ui \<Rightarrow> ui" where
  "setOpenMobile v s = s\<lparr>openMobile := v\<rparr>"

text \<open>The setter of \<^verbatim>\<open>useState\<close>, and \<^verbatim>\<open>window.dispatchEvent\<close>.\<close>

definition setLoadingThreadId :: "string option \<Rightarrow> ui \<Rightarrow> ui" where
  "setLoadingThreadId v s = s\<lparr>loadingThreadId := v\<rparr>"

definition dispatchEvent :: "custom_event \<Rightarrow> ui \<Rightarrow> ui" where
  "dispatchEvent ev s = s\<lparr>dispatched := dispatched s @ [ev]\<rparr>"

subsection \<open>JavaScript string operations\<close>

text \<open>
  \<^verbatim>\<open>s.startsWith(t)\<close> and \<^verbatim>\<open>s.includes(t)\<close> on strings as lists of code units
  (\<open>includes\<close> is a keyword of the prover, hence \<open>includes_str\<close>).
\<close>

definition startsWith :: "string \<Rightarrow> string \<Rightarrow> bool" where
  "startsWith s t = (take (length t) s = t)"

fun includes_str :: "string \<Rightarrow> string \<Rightarrow> bool" where
  "includes_str [] t = (t = [])"
| "includes_str (c # s) t = (startsWith (c # s) t \<or> includes_str s t)"


section \<open>SidebarLeft (sidebar-left.tsx)\<close>

text \<open>
  The first effect of \<^verbatim>\<open>SidebarLeft\<close>:
  \<^verbatim>\<open>useEffect(() => { if (isMobile) { setOpenMobile(false); } },
            [pathname, searchParams, isMobile, setOpenMobile])\<close>
\<close>

definition closeMobileEffect :: "ui \<Rightarrow> ui" where
  "closeMobileEffect s = (if isMobile s then setOpenMobile False s else s)"

text \<open>
  A route change gives \<^verbatim>\<open>usePathname\<close> and \<^verbatim>\<open>useSearchParams\<close> their new values; the
  effect runs when one of its dependencies differs from the previous render.
\<close>

definition routeChange :: "string \<Rightarrow> string \<Rightarrow> ui \<Rightarrow> ui" where
  "routeChange p q s =
     (let s' = s\<lparr>pathname := Some p, searchParams := q\<rparr>
      in if pathname s \<noteq> Some p \<or> searchParams s \<noteq> q then closeMobileEffect s' else s')"

text \<open>
  The keydown listener of the second effect, as registered by a render of the state
  \<open>s\<close>: both occurrences of \<^verbatim>\<open>!state.startsWith('expanded')\<close> read the \<^verbatim>\<open>state\<close> of that
  render.
\<close>

definition handleKeyDown :: "keyboard_event \<Rightarrow> ui \<Rightarrow> keyboard_event \<times> ui" where
  "handleKeyDown event s =
     (if (metaKey event \<or> ctrlKey event) \<and> key event = ''b'' then
        (preventDefault event,
         dispatchEvent \<lparr>event_type = ''sidebar-left-toggled'',
                        expanded = \<not> startsWith (state s) ''expanded''\<rparr>
           (setOpen (\<not> startsWith (state s) ''expanded'') s))
      else (event, s))"

text \<open>
  The same listener with the closure made explicit. The listener is created by a render
  and reads that render's \<^verbatim>\<open>state\<close> (the argument \<open>captured\<close>) in both occurrences of
  \<^verbatim>\<open>!state.startsWith('expanded')\<close>, while \<^verbatim>\<open>setOpen\<close> and \<^verbatim>\<open>dispatchEvent\<close> act on the
  live state. \<open>handleKeyDown event s\<close> is the listener of a render of \<open>s\<close> itself.
\<close>

definition keydownListener :: "string \<Rightarrow> keyboard_event \<Rightarrow> ui \<Rightarrow> keyboard_event \<times> ui" where
  "keydownListener captured event s =
     (if (metaKey event \<or> ctrlKey event) \<and> key event = ''b'' then
        (preventDefault event,
         dispatchEvent \<lparr>event_type = ''sidebar-left-toggled'',
                        expanded = \<not> startsWith captured ''expanded''\<rparr>
           (setOpen (\<not> startsWith captured ''expanded'') s))
      else (event, s))"





text \<open>The condition under which the listener acts: the platform modifier together with \<open>b\<close>.\<close>

definition isToggleShortcut :: "keyboard_event \<Rightarrow> bool" where
  "isToggleShortcut e = ((metaKey e \<or> ctrlKey e) \<and> key e = ''b'')"




section \<open>NavAgents (nav-agents.tsx)\<close>

text \<open>
  What a query hook returns (\<^verbatim>\<open>useThreads\<close>, \<^verbatim>\<open>useApiHealth\<close>): \<^verbatim>\<open>data\<close> is undefined
  until a response has arrived, \<^verbatim>\<open>error\<close> is null unless the request failed.
\<close>

record 'a query_result =
  data :: "'a option"
  isLoading :: bool
  error :: "string option"

record thread =
  thread_id :: string
  name :: string
  updated_at :: string
  iconName :: "string option"

record threads_response =
  threads :: "thread list"

text \<open>\<^verbatim>\<open>const threads = threadsResponse?.threads || [];\<close>\<close>

definition threads_of :: "threads_response query_result \<Rightarrow> thread list" where
  "threads_of q = (case data q of None \<Rightarrow> [] | Some r \<Rightarrow> threads r)"

text \<open>
  \<^verbatim>\<open>handleThreadClick\<close>; the argument \<open>url\<close> is not used by the body.
\<close>

definition handleThreadClick :: "mouse_event \<Rightarrow> string \<Rightarrow> string \<Rightarrow> ui \<Rightarrow> ui" where
  "handleThreadClick e threadId url s =
     (let s1 = (if \<not> metaKey e then setLoadingThreadId (Some threadId) s else s)
      in if isMobile s1 then setOpenMobile False s1 else s1)"

text \<open>
  The rendered row of \<^verbatim>\<open>ThreadItem\<close>: the target of its link, whether the card has the
  active background (\<^verbatim>\<open>bg-muted\<close>), the icon drawn (the spinner \<^verbatim>\<open>Loader2\<close>, or
  \<^verbatim>\<open>ThreadIcon\<close> with \<^verbatim>\<open>thread.iconName || 'bot'\<close>), the name and the formatted date.
  \<^verbatim>\<open>formatDateForList\<close> is not among the sources and is a parameter.
\<close>

datatype icon = Loader2 | ThreadIcon string

record thread_item =
  href :: string
  active :: bool
  item_icon :: icon
  item_name :: string
  item_date :: string

definition ThreadItem :: "(string \<Rightarrow> string) \<Rightarrow> thread \<Rightarrow> bool \<Rightarrow> bool \<Rightarrow> thread_item" where
  "ThreadItem formatDateForList thread isActive isThreadLoading =
     \<lparr>href = ''/agents/'' @ thread_id thread,
      active = isActive,
      item_icon = (if isThreadLoading then Loader2
                   else ThreadIcon (case iconName thread of
                                      None \<Rightarrow> ''bot''
                                    | Some n \<Rightarrow> if n = [] then ''bot'' else n)),
      item_name = name thread,
      item_date = formatDateForList (updated_at thread)\<rparr>"

text \<open>\<^verbatim>\<open>pathname?.includes(thread.thread_id) || false\<close>\<close>

definition isActive :: "string option \<Rightarrow> thread \<Rightarrow> bool" where
  "isActive p thread = (case p of None \<Rightarrow> False | Some path \<Rightarrow> includes_str path (thread_id thread))"

text \<open>\<^verbatim>\<open>loadingThreadId === thread.thread_id\<close>\<close>

definition isThreadLoading :: "ui \<Rightarrow> string \<Rightarrow> bool" where
  "isThreadLoading s tid = (loadingThreadId s = Some tid)"

text \<open>
  What the list region shows: the skeleton with its number of placeholder rows, the
  rows, or the message \<^verbatim>\<open>t('noConversations')\<close> (the translation function \<open>t\<close> is a
  parameter). \<open>None\<close> is the region with no content: in JSX, \<^verbatim>\<open>false && ...\<close> renders
  nothing.
\<close>

datatype list_view =
    Skeleton nat
  | Rows "thread_item list"
  | EmptyMessage string

definition NavAgents ::
  "(string \<Rightarrow> string) \<Rightarrow> (string \<Rightarrow> string) \<Rightarrow> ui \<Rightarrow> threads_response query_result \<Rightarrow> list_view option" where
  "NavAgents t formatDateForList s q =
     (let ths = threads_of q;
          loading = (isLoading q \<and> length ths = 0)
      in if state s \<noteq> ''collapsed'' \<or> isMobile s then
           Some (if loading then Skeleton 3
                 else if length ths > 0 then
                   Rows (map (\<lambda>thread. ThreadItem formatDateForList thread
                                (isActive (pathname s) thread)
                                (isThreadLoading s (thread_id thread))) ths)
                 else EmptyMessage (t ''noConversations''))
         else None)"


section \<open>Layout shell (app-providers.tsx, layout-content.tsx)\<close>

datatype element =
    MaintenancePage
  | SidebarProvider "element list"
  | SidebarLeft
  | SidebarInset "element list"
  | Fragment "element list"
  | Div string "element list"
  | FloatingMobileMenuButton
  | PresentationViewerWrapper
  | Page

fun has_sidebar :: "element \<Rightarrow> bool" where
  "has_sidebar SidebarLeft = True"
| "has_sidebar (SidebarProvider es) = list_ex has_sidebar es"
| "has_sidebar (SidebarInset es) = list_ex has_sidebar es"
| "has_sidebar (Fragment es) = list_ex has_sidebar es"
| "has_sidebar (Div c es) = list_ex has_sidebar es"
| "has_sidebar _ = False"

definition AppProviders :: "element list \<Rightarrow> bool \<Rightarrow> element list \<Rightarrow> element" where
  "AppProviders children showSidebar sidebarSiblings =
     (if \<not> showSidebar then Fragment children
      else SidebarProvider ([SidebarLeft, SidebarInset children] @ sidebarSiblings))"

record health =
  status :: string

definition isApiHealthy :: "health query_result \<Rightarrow> bool" where
  "isApiHealthy h = (map_option status (data h) = Some ''ok'' \<and> error h = None)"

definition DashboardLayoutContent :: "health query_result \<Rightarrow> element list \<Rightarrow> element option" where
  "DashboardLayoutContent h children =
     (if isLoading h then None
      else if \<not> isApiHealthy h then Some MaintenancePage
      else Some (AppProviders [Div ''bg-background'' children, PresentationViewerWrapper]
                   True [Fragment [FloatingMobileMenuButton]]))"

section \<open>Sample inputs\<close>


definition ctrl_b :: keyboard_event where
  "ctrl_b = \<lparr>metaKey = False, ctrlKey = True, shiftKey = False, altKey = False,
             defaultPrevented = False, key = ''b''\<rparr>"

definition plain_click :: mouse_event where
  "plain_click = \<lparr>metaKey = False, ctrlKey = False, shiftKey = False, altKey = False,
                  defaultPrevented = False\<rparr>"

definition cmd_click :: mouse_event where
  "cmd_click = \<lparr>metaKey = True, ctrlKey = False, shiftKey = False, altKey = False,
                defaultPrevented = False\<rparr>"

definition ctrl_click :: mouse_event where
  "ctrl_click = \<lparr>metaKey = False, ctrlKey = True, shiftKey = False, altKey = False,
                 defaultPrevented = False\<rparr>"

definition desktop_ui :: ui where
  "desktop_ui = \<lparr>sb_open = True, openMobile = False, isMobile = False,
                 loadingThreadId = Some ''t1'', pathname = Some ''/agents/abc123'',
                 searchParams = [], dispatched = []\<rparr>"

definition collapsed_ui :: ui where
  "collapsed_ui = \<lparr>sb_open = False, openMobile = False, isMobile = False,
                   loadingThreadId = None, pathname = Some ''/dashboard'',
                   searchParams = [], dispatched = []\<rparr>"

definition mobile_ui :: ui where
  "mobile_ui = \<lparr>sb_open = False, openMobile = True, isMobile = True,
                loadingThreadId = None, pathname = Some ''/dashboard'',
                searchParams = [], dispatched = []\<rparr>"

definition thread_abc :: thread where
  "thread_abc = \<lparr>thread_id = ''abc'', name = ''First'', updated_at = ''2025-08-15'',
                 iconName = None\<rparr>"

definition thread_xyz :: thread where
  "thread_xyz = \<lparr>thread_id = ''xyz'', name = ''Second'', updated_at = ''2025-08-16'',
                 iconName = Some ''zap''\<rparr>"

definition two_threads :: "threads_response query_result" where
  "two_threads = \<lparr>data = Some \<lparr>threads = [thread_abc, thread_xyz]\<rparr>,
                  isLoading = False, error = None\<rparr>"


definition loading_threads :: "threads_response query_result" where
  "loading_threads = \<lparr>data = None, isLoading = True, error = None\<rparr>"

definition health_pending :: "health query_result" where
  "health_pending = \<lparr>data = None, isLoading = True, error = None\<rparr>"

definition health_ok :: "health query_result" where
  "health_ok = \<lparr>data = Some \<lparr>status = ''ok''\<rparr>, isLoading = False, error = None\<rparr>"

definition health_degraded :: "health query_result" where
  "health_degraded = \<lparr>data = Some \<lparr>status = ''degraded''\<rparr>, isLoading = False, error = None\<rparr>"

definition health_failed :: "health query_result" where
  "health_failed = \<lparr>data = None, isLoading = False, error = Some ''Network Error''\<rparr>"

definition feature_x_update :: set_clause where
  "feature_x_update = \<lparr>set_key = None, set_value = Some (Some (JBool False)),
                        set_created_at = None, set_updated_at = Some (Some 5)\<rparr>"

definition feature_x_row :: "timestamptz \<Rightarrow> timestamptz \<Rightarrow> settings_row" where
  "feature_x_row c m = \<lparr>col_key = Some ''feature.x'', col_value = Some (JBool False),
                         col_created_at = Some c, col_updated_at = Some m\<rparr>"


section \<open>Settings table: the timestamp trigger\<close>

lemma constraints_Inr:
  "constraints tbl = Inr tbl' \<longleftrightarrow>
     tbl' = tbl \<and> list_all not_null_ok tbl \<and> distinct (map col_key tbl)"
  by (auto simp: constraints_def)

lemma find_append_miss:
  "\<forall>x \<in> set xs. \<not> P x \<Longrightarrow> find P (xs @ ys) = find P ys"
  by (induction xs) auto

lemma sql_update_rows:
  assumes "sql_update now cond sc tbl = Inr tbl'"
  shows "length tbl' = length tbl \<and>
         (\<forall>i < length tbl. tbl' ! i =
            (if cond (tbl ! i) then handle_settings_updated_at now sc (tbl ! i) else tbl ! i))"
  using assms by (auto simp: sql_update_def constraints_Inr)

lemma trigger_overrides:
  "col_updated_at (handle_settings_updated_at now sc OLD) = Some now"
  by (simp add: handle_settings_updated_at_def set_updated_at_timestamp_def)

text \<open>
  Claim C4, as stated: inserting a row and later updating its value leaves
  \<open>updated_at\<close> strictly greater than \<open>created_at\<close>. When the update is a later
  statement of the inserting transaction, both columns hold the one \<^verbatim>\<open>NOW()\<close> of that
  transaction: on the seeded table, \<^verbatim>\<open>('feature.x', 'true')\<close> inserted and then set to
  \<^verbatim>\<open>'false'\<close> in the transaction started at 200 ends with \<open>updated_at = created_at = 200\<close>.
\<close>

theorem same_transaction_counterexample:
  "transaction 200 [Insert (Some ''feature.x'') (Some (JBool True)),
                    Update (key_is ''feature.x'') feature_x_update] (seed 100)
     = Inr (seed 100 @ [feature_x_row 200 200]) \<and>
   lookup (seed 100 @ [feature_x_row 200 200]) ''feature.x'' = Some (feature_x_row 200 200) \<and>
   col_updated_at (feature_x_row 200 200) = col_created_at (feature_x_row 200 200)"
  by (simp add: sql_insert_def sql_update_def constraints_def seed_def not_null_ok_def
      feature_x_update_def feature_x_row_def handle_settings_updated_at_def
      set_updated_at_timestamp_def apply_set_def assign_def key_is_def lookup_def)

text \<open>
  Claim C4, amended. Every update of a row stores \<^verbatim>\<open>NOW()\<close>, the start time of the
  updating transaction, in \<open>updated_at\<close>, whatever value (or \<open>NULL\<close>) the statement
  assigns to that column: for the single row, and for every row that a successful
  \<^verbatim>\<open>UPDATE\<close> selects. In particular, on a valid table without the key \<open>k\<close>, inserting
  \<open>(k, v)\<close> in a transaction started at \<open>t1\<close> and updating the value of that row to \<open>v'\<close>
  in a transaction started at \<open>t2\<close> both succeed and leave a row with key \<open>k\<close>, value
  \<open>v'\<close>, \<open>created_at = t1\<close> and \<open>updated_at = t2\<close>, whatever \<open>updated_at\<close> the statement
  supplies (\<open>u\<close>): \<open>updated_at\<close> is strictly greater than \<open>created_at\<close> exactly when the
  updating transaction started later than the inserting one.
\<close>

theorem update_forces_updated_at:
  "col_updated_at (handle_settings_updated_at now sc OLD) = Some now \<and>
   (sql_update now cond sc tbl = Inr tbl' \<longrightarrow>
      length tbl' = length tbl \<and>
      (\<forall>i < length tbl. cond (tbl ! i) \<longrightarrow> col_updated_at (tbl' ! i) = Some now)) \<and>
   (constraints tbl0 = Inr tbl0 \<and> Some k \<notin> set (map col_key tbl0) \<longrightarrow>
      (\<exists>tbl1 tbl2 r.
         transaction t1 [Insert (Some k) v] tbl0 = Inr tbl1 \<and>
         transaction t2 [Update (key_is k)
           \<lparr>set_key = None, set_value = Some v', set_created_at = None, set_updated_at = u\<rparr>]
           tbl1 = Inr tbl2 \<and>
         lookup tbl2 k = Some r \<and>
         col_key r = Some k \<and> col_value r = v' \<and>
         col_created_at r = Some t1 \<and> col_updated_at r = Some t2 \<and>
         (\<exists>c m. col_created_at r = Some c \<and> col_updated_at r = Some m \<and>
                (c < m \<longleftrightarrow> t1 < t2))))"
proof (intro conjI impI)
  show "col_updated_at (handle_settings_updated_at now sc OLD) = Some now"
    by (rule trigger_overrides)
next
  assume a: "sql_update now cond sc tbl = Inr tbl'"
  from sql_update_rows [OF a] show "length tbl' = length tbl" by simp
next
  assume a: "sql_update now cond sc tbl = Inr tbl'"
  from sql_update_rows [OF a]
  show "\<forall>i < length tbl. cond (tbl ! i) \<longrightarrow> col_updated_at (tbl' ! i) = Some now"
    by (simp add: trigger_overrides)
next
  assume h: "constraints tbl0 = Inr tbl0 \<and> Some k \<notin> set (map col_key tbl0)"
  define new where "new = \<lparr>col_key = Some k, col_value = v,
                             col_created_at = Some t1, col_updated_at = Some t1\<rparr>"
  define upd where "upd = \<lparr>col_key = Some k, col_value = v',
                             col_created_at = Some t1, col_updated_at = Some t2\<rparr>"
  define sc where "sc = \<lparr>set_key = None, set_value = Some v', set_created_at = None,
                          set_updated_at = u\<rparr>"
  from h have ok0: "list_all not_null_ok tbl0" "distinct (map col_key tbl0)"
    by (simp_all add: constraints_Inr)
  from h have "Some k \<notin> col_key ` set tbl0" by simp
  then have fresh: "\<forall>r \<in> set tbl0. col_key r \<noteq> Some k" by force
  have ins: "sql_insert t1 (Some k) v tbl0 = Inr (tbl0 @ [new])"
    using ok0 fresh by (auto simp: sql_insert_def constraints_def new_def not_null_ok_def)
  then have ins_tx: "transaction t1 [Insert (Some k) v] tbl0 = Inr (tbl0 @ [new])"
    by simp
  have row: "handle_settings_updated_at t2 sc new = upd"
    by (simp add: handle_settings_updated_at_def set_updated_at_timestamp_def apply_set_def
        assign_def sc_def new_def upd_def)
  have keep: "map (\<lambda>r. if key_is k r then handle_settings_updated_at t2 sc r else r) tbl0 = tbl0"
    using fresh by (simp add: map_idI key_is_def)
  have mp: "map (\<lambda>r. if key_is k r then handle_settings_updated_at t2 sc r else r)
              (tbl0 @ [new]) = tbl0 @ [upd]"
    using keep row by (simp add: new_def key_is_def)
  have upd_ok: "sql_update t2 (key_is k) sc (tbl0 @ [new]) = Inr (tbl0 @ [upd])"
    unfolding sql_update_def mp
    using ok0 fresh by (auto simp: constraints_def upd_def not_null_ok_def)
  then have upd_tx: "transaction t2 [Update (key_is k) sc] (tbl0 @ [new]) = Inr (tbl0 @ [upd])"
    by simp
  have lk: "lookup (tbl0 @ [upd]) k = Some upd"
    using fresh by (simp add: lookup_def find_append_miss upd_def)
  have fields: "col_key upd = Some k \<and> col_value upd = v' \<and>
     col_created_at upd = Some t1 \<and> col_updated_at upd = Some t2 \<and>
     (\<exists>c m. col_created_at upd = Some c \<and> col_updated_at upd = Some m \<and>
            (c < m \<longleftrightarrow> t1 < t2))"
    by (simp add: upd_def)
  from ins_tx upd_tx lk fields
  show "\<exists>tbl1 tbl2 r.
         transaction t1 [Insert (Some k) v] tbl0 = Inr tbl1 \<and>
         transaction t2 [Update (key_is k)
           \<lparr>set_key = None, set_value = Some v', set_created_at = None, set_updated_at = u\<rparr>]
           tbl1 = Inr tbl2 \<and>
         lookup tbl2 k = Some r \<and>
         col_key r = Some k \<and> col_value r = v' \<and>
         col_created_at r = Some t1 \<and> col_updated_at r = Some t2 \<and>
         (\<exists>c m. col_created_at r = Some c \<and> col_updated_at r = Some m \<and>
                (c < m \<longleftrightarrow> t1 < t2))"
    unfolding sc_def by blast
qed

text \<open>
  The scenario on the seeded table in two transactions: \<^verbatim>\<open>('feature.x', 'true')\<close>
  inserted at 200, its value set to \<^verbatim>\<open>'false'\<close> at 300 by a statement that also assigns
  \<open>updated_at = 5\<close>.
\<close>

theorem update_forces_updated_at_witness:
  "constraints (seed 100) = Inr (seed 100) \<and>
   Some ''feature.x'' \<notin> set (map col_key (seed 100)) \<and>
   (\<exists>tbl1 tbl2 r.
      transaction 200 [Insert (Some ''feature.x'') (Some (JBool True))] (seed 100) = Inr tbl1 \<and>
      transaction 300 [Update (key_is ''feature.x'') feature_x_update] tbl1 = Inr tbl2 \<and>
      lookup tbl2 ''feature.x'' = Some r \<and>
      col_key r = Some ''feature.x'' \<and> col_value r = Some (JBool False) \<and>
      col_created_at r = Some 200 \<and> col_updated_at r = Some 300) \<and>
   (200::int) < 300 \<and>
   transaction 300 [Update (key_is ''feature.x'') feature_x_update]
     (seed 100 @ [\<lparr>col_key = Some ''feature.x'', col_value = Some (JBool True),
                    col_created_at = Some 200, col_updated_at = Some 200\<rparr>])
     = Inr (seed 100 @ [feature_x_row 200 300])"
proof -
  have c: "constraints (seed 100) = Inr (seed 100)"
    by (simp add: constraints_def seed_def not_null_ok_def)
  have f: "Some ''feature.x'' \<notin> set (map col_key (seed 100))"
    by (simp add: seed_def)
  have e: "transaction 300 [Update (key_is ''feature.x'') feature_x_update]
     (seed 100 @ [\<lparr>col_key = Some ''feature.x'', col_value = Some (JBool True),
                    col_created_at = Some 200, col_updated_at = Some 200\<rparr>])
     = Inr (seed 100 @ [feature_x_row 200 300])"
    by (simp add: sql_update_def constraints_def seed_def not_null_ok_def feature_x_update_def
        feature_x_row_def handle_settings_updated_at_def set_updated_at_timestamp_def
        apply_set_def assign_def key_is_def)
  from c f
    update_forces_updated_at [of 0 feature_x_update "feature_x_row 0 0" "\<lambda>r. True" "[]" "[]" "seed 100"
      "''feature.x''" 200 "Some (JBool True)" 300 "Some (JBool False)" "Some (Some 5)"]
  have x: "\<exists>tbl1 tbl2 r.
      transaction 200 [Insert (Some ''feature.x'') (Some (JBool True))] (seed 100) = Inr tbl1 \<and>
      transaction 300 [Update (key_is ''feature.x'') feature_x_update] tbl1 = Inr tbl2 \<and>
      lookup tbl2 ''feature.x'' = Some r \<and>
      col_key r = Some ''feature.x'' \<and> col_value r = Some (JBool False) \<and>
      col_created_at r = Some 200 \<and> col_updated_at r = Some 300"
    unfolding feature_x_update_def by blast
  from c f x e show ?thesis by simp
qed

section \<open>Sidebar state controller\<close>

lemma handleKeyDown_flips:
  "isToggleShortcut e \<Longrightarrow> sb_open (snd (handleKeyDown e s)) = (\<not> sb_open s)"
  by (simp add: isToggleShortcut_def handleKeyDown_def dispatchEvent_def setOpen_def
      state_def startsWith_def)


text \<open>
  Claim C3. A route change (a new pathname or a new query string) while the viewport
  is evaluated as mobile leaves the mobile overlay closed, and a route change on any
  viewport leaves the desktop expanded/collapsed flag as it was.
\<close>

theorem route_change_closes_overlay:
  "sb_open (routeChange p q s) = sb_open s \<and>
   (isMobile s \<and> (pathname s \<noteq> Some p \<or> searchParams s \<noteq> q) \<longrightarrow>
      \<not> openMobile (routeChange p q s))"
  by (simp add: routeChange_def closeMobileEffect_def setOpenMobile_def Let_def)

theorem route_change_closes_overlay_witness:
  "isMobile mobile_ui \<and> openMobile mobile_ui \<and> pathname mobile_ui \<noteq> Some ''/agents/abc'' \<and>
   \<not> openMobile (routeChange ''/agents/abc'' [] mobile_ui) \<and>
   sb_open (routeChange ''/agents/abc'' [] mobile_ui) = sb_open mobile_ui"
proof -
  have h: "isMobile mobile_ui" "openMobile mobile_ui" "pathname mobile_ui \<noteq> Some ''/agents/abc''"
    by (simp_all add: mobile_ui_def)
  from route_change_closes_overlay [of "''/agents/abc''" "[]" mobile_ui] h show ?thesis
    by simp
qed





text \<open>The listener that a render of \<open>s\<close> registers is \<open>handleKeyDown\<close> on \<open>s\<close>.\<close>

lemma handleKeyDown_listener: "handleKeyDown e s = keydownListener (state s) e s"
  by (simp add: handleKeyDown_def keydownListener_def)





section \<open>Thread list renderer\<close>

text \<open>
  Claim C10. On a non-mobile viewport with the sidebar collapsed, the list region has
  no content, whatever the loading flag and the threads are: neither the skeleton, nor
  rows, nor the empty message.
\<close>

theorem collapsed_renders_nothing:
  "state s = ''collapsed'' \<Longrightarrow> \<not> isMobile s \<Longrightarrow> NavAgents t f s q = None"
  by (simp add: NavAgents_def Let_def)

theorem collapsed_renders_nothing_witness:
  "state collapsed_ui = ''collapsed'' \<and> \<not> isMobile collapsed_ui \<and>
   threads_of two_threads \<noteq> [] \<and>
   NavAgents id id collapsed_ui two_threads = None"
proof -
  have c: "state collapsed_ui = ''collapsed''" by (simp add: state_def collapsed_ui_def)
  have m: "\<not> isMobile collapsed_ui" by (simp add: collapsed_ui_def)
  have t: "threads_of two_threads \<noteq> []" by (simp add: threads_of_def two_threads_def)
  from collapsed_renders_nothing [OF c m, of id id two_threads] c m t show ?thesis
    by simp
qed

lemma startsWith_iff: "startsWith s t \<longleftrightarrow> (\<exists>ss. s = t @ ss)"
proof
  assume "startsWith s t"
  then have "s = t @ drop (length t) s"
    by (metis append_take_drop_id startsWith_def)
  then show "\<exists>ss. s = t @ ss" ..
next
  assume "\<exists>ss. s = t @ ss"
  then show "startsWith s t" by (auto simp: startsWith_def)
qed

text \<open>\<open>includes_str\<close> is substring containment.\<close>

lemma includes_str_iff: "includes_str s t \<longleftrightarrow> (\<exists>ps ss. s = ps @ t @ ss)"
proof (induction s)
  case Nil
  show ?case by simp
next
  case (Cons c s)
  show ?case
  proof
    assume "includes_str (c # s) t"
    then consider "startsWith (c # s) t" | "includes_str s t" by auto
    then show "\<exists>ps ss. c # s = ps @ t @ ss"
    proof cases
      case 1
      then obtain ss where "c # s = t @ ss" by (auto simp: startsWith_iff)
      then have "c # s = [] @ t @ ss" by simp
      then show ?thesis by blast
    next
      case 2
      then obtain ps ss where "s = ps @ t @ ss" using Cons.IH by auto
      then have "c # s = (c # ps) @ t @ ss" by simp
      then show ?thesis by blast
    qed
  next
    assume "\<exists>ps ss. c # s = ps @ t @ ss"
    then obtain ps ss where eq: "c # s = ps @ t @ ss" by auto
    show "includes_str (c # s) t"
    proof (cases ps)
      case Nil
      with eq have "startsWith (c # s) t" by (auto simp: startsWith_iff)
      then show ?thesis by simp
    next
      case (Cons a ps')
      with eq have "s = ps' @ t @ ss" by simp
      then have "includes_str s t" using Cons.IH by blast
      then show ?thesis by simp
    qed
  qed
qed

text \<open>What the list region shows when the guard \<^verbatim>\<open>state !== 'collapsed' || isMobile\<close> holds.\<close>

lemma NavAgents_visible:
  "state s \<noteq> ''collapsed'' \<or> isMobile s \<Longrightarrow>
   NavAgents t f s q =
     Some (if isLoading q \<and> threads_of q = [] then Skeleton 3
           else if threads_of q \<noteq> [] then
             Rows (map (\<lambda>thread. ThreadItem f thread (isActive (pathname s) thread)
                          (isThreadLoading s (thread_id thread))) (threads_of q))
           else EmptyMessage (t ''noConversations''))"
  by (auto simp: NavAgents_def Let_def)

lemma sample_rows:
  "NavAgents id id desktop_ui two_threads =
     Some (Rows [ThreadItem id thread_abc True False, ThreadItem id thread_xyz False False])"
  by (simp add: NavAgents_def Let_def state_def desktop_ui_def two_threads_def threads_of_def
      isActive_def isThreadLoading_def thread_abc_def thread_xyz_def startsWith_def)

text \<open>
  Claim C5, as stated: the thread list always shows exactly one of the skeleton, the
  rows and the empty message. On a desktop viewport with the sidebar collapsed it shows
  none of them: not the skeleton while the first load is in flight, and not the rows of
  a loaded, non-empty collection.
\<close>

theorem collapsed_list_counterexample:
  "isLoading loading_threads \<and> threads_of loading_threads = [] \<and>
   NavAgents id id collapsed_ui loading_threads = None \<and>
   \<not> isLoading two_threads \<and> threads_of two_threads = [thread_abc, thread_xyz] \<and>
   NavAgents id id collapsed_ui two_threads = None"
  by (simp add: NavAgents_def Let_def state_def collapsed_ui_def loading_threads_def
      two_threads_def threads_of_def)

text \<open>
  Claim C5, amended: whenever the sidebar is not collapsed or the viewport is mobile,
  the thread list shows exactly one of three states chosen from the loading flag and
  the number of threads: the skeleton of exactly 3 placeholder rows iff the query is
  loading and there are no threads yet; rows iff the collection is non-empty, one per
  thread in the order of the data source, the row of a thread linking to
  \<^verbatim>\<open>/agents/{thread_id}\<close>; the message \<^verbatim>\<open>t('noConversations')\<close> iff the load has completed
  with no threads.
\<close>

theorem thread_list_three_states:
  assumes "state s \<noteq> ''collapsed'' \<or> isMobile s"
  shows "\<exists>v. NavAgents t f s q = Some v \<and>
     (v = Skeleton 3 \<or> (\<exists>rs. v = Rows rs) \<or> v = EmptyMessage (t ''noConversations'')) \<and>
     (v = Skeleton 3 \<longleftrightarrow> isLoading q \<and> threads_of q = []) \<and>
     ((\<exists>rs. v = Rows rs) \<longleftrightarrow> threads_of q \<noteq> []) \<and>
     (\<forall>rs. v = Rows rs \<longrightarrow>
        map href rs = map (\<lambda>th. ''/agents/'' @ thread_id th) (threads_of q)) \<and>
     (v = EmptyMessage (t ''noConversations'') \<longleftrightarrow> \<not> isLoading q \<and> threads_of q = [])"
  using NavAgents_visible [OF assms, of t f q]
  by (auto simp: ThreadItem_def comp_def)

theorem thread_list_three_states_witness:
  "state desktop_ui = ''expanded'' \<and>
   threads_of two_threads = [thread_abc, thread_xyz] \<and>
   (\<exists>rs. NavAgents id id desktop_ui two_threads = Some (Rows rs) \<and>
         map href rs = [''/agents/abc'', ''/agents/xyz'']) \<and>
   isMobile mobile_ui \<and>
   isLoading loading_threads \<and> threads_of loading_threads = [] \<and>
   NavAgents id id mobile_ui loading_threads = Some (Skeleton 3)"
proof -
  have e: "state desktop_ui = ''expanded''"
    by (simp add: state_def desktop_ui_def)
  then have v: "state desktop_ui \<noteq> ''collapsed'' \<or> isMobile desktop_ui"
    by simp
  have n: "threads_of two_threads = [thread_abc, thread_xyz]"
    by (simp add: threads_of_def two_threads_def)
  have i: "isMobile mobile_ui"
    by (simp add: mobile_ui_def)
  then have m: "state mobile_ui \<noteq> ''collapsed'' \<or> isMobile mobile_ui"
    by simp
  have ld: "isLoading loading_threads" "threads_of loading_threads = []"
    by (simp_all add: loading_threads_def threads_of_def)
  from thread_list_three_states [OF v, of id id two_threads] n
  have r: "\<exists>rs. NavAgents id id desktop_ui two_threads = Some (Rows rs) \<and>
         map href rs = [''/agents/abc'', ''/agents/xyz'']"
    by (auto simp: thread_abc_def thread_xyz_def)
  from thread_list_three_states [OF m, of id id loading_threads] ld
  have s: "NavAgents id id mobile_ui loading_threads = Some (Skeleton 3)"
    by auto
  from e n i ld r s show ?thesis by simp
qed

text \<open>
  Claim C6. For every rendered row and every current path, the row is marked active
  iff the path contains the id of the row's thread as a substring. At the sample input
  the thread \<open>abc\<close> is active on the path \<^verbatim>\<open>/agents/abc123\<close>, which is the page of
  another thread: the check is containment, not equality of a path segment.
\<close>

theorem active_iff_path_contains_id:
  assumes "NavAgents t f s q = Some (Rows rs)" and "pathname s = Some p" and "i < length rs"
  shows "length rs = length (threads_of q) \<and>
         (active (rs ! i) \<longleftrightarrow> (\<exists>ps ss. p = ps @ thread_id (threads_of q ! i) @ ss))"
proof -
  have vis: "state s \<noteq> ''collapsed'' \<or> isMobile s"
    using assms(1) by (auto simp: NavAgents_def Let_def split: if_splits)
  have rs: "rs = map (\<lambda>thread. ThreadItem f thread (isActive (pathname s) thread)
                          (isThreadLoading s (thread_id thread))) (threads_of q)"
    using assms(1) NavAgents_visible [OF vis, of t f q] by (simp split: if_splits)
  then have len: "length rs = length (threads_of q)" by simp
  with assms(3) have "i < length (threads_of q)" by simp
  then have "active (rs ! i) = isActive (Some p) (threads_of q ! i)"
    using rs assms(2) by (simp add: ThreadItem_def)
  with len show ?thesis by (simp add: isActive_def includes_str_iff)
qed

theorem active_iff_path_contains_id_witness:
  "NavAgents id id desktop_ui two_threads =
     Some (Rows [ThreadItem id thread_abc True False, ThreadItem id thread_xyz False False]) \<and>
   pathname desktop_ui = Some ''/agents/abc123'' \<and>
   (0::nat) < length [ThreadItem id thread_abc True False, ThreadItem id thread_xyz False False] \<and>
   thread_id (threads_of two_threads ! 0) = ''abc'' \<and>
   active ([ThreadItem id thread_abc True False, ThreadItem id thread_xyz False False] ! 0) \<and>
   (\<exists>ps ss. ''/agents/abc123'' = ps @ thread_id (threads_of two_threads ! 0) @ ss)"
proof -
  have p: "pathname desktop_ui = Some ''/agents/abc123''" by (simp add: desktop_ui_def)
  have l: "(0::nat) < length [ThreadItem id thread_abc True False, ThreadItem id thread_xyz False False]"
    by simp
  have i: "thread_id (threads_of two_threads ! 0) = ''abc''"
    by (simp add: threads_of_def two_threads_def thread_abc_def)
  have a: "active ([ThreadItem id thread_abc True False, ThreadItem id thread_xyz False False] ! 0)"
    by (simp add: ThreadItem_def)
  from active_iff_path_contains_id [OF sample_rows p l] sample_rows p l i a
  show ?thesis by simp
qed


section \<open>The transient loading target\<close>

lemma handleThreadClick_plain:
  "\<not> metaKey e \<Longrightarrow> loadingThreadId (handleThreadClick e tid url s) = Some tid"
  by (simp add: handleThreadClick_def setLoadingThreadId_def setOpenMobile_def Let_def)

lemma handleThreadClick_meta:
  "metaKey e \<Longrightarrow> loadingThreadId (handleThreadClick e tid url s) = loadingThreadId s"
  by (simp add: handleThreadClick_def setLoadingThreadId_def setOpenMobile_def Let_def)

lemma filter_key_distinct:
  "distinct (map f xs) \<Longrightarrow> length (filter (\<lambda>x. f x = a) xs) \<le> 1"
  by (induction xs) (auto simp: image_iff filter_empty_conv)

lemma spinner_iff: "item_icon (ThreadItem f th act ld) = Loader2 \<longleftrightarrow> ld"
  by (simp add: ThreadItem_def)

text \<open>
  Claim C1 says that a click with a platform modifier held marks no loading target and
  leaves the marked id unchanged. The handler tests \<open>metaKey\<close> only, whereas the keydown
  listener of the sidebar takes \<open>metaKey\<close> or \<open>ctrlKey\<close> for the platform modifier. A
  click with \<open>ctrlKey\<close> held (and \<open>metaKey\<close> not) on the row of thread \<open>t2\<close>, while \<open>t1\<close> is
  marked, marks \<open>t2\<close>; the same click with \<open>metaKey\<close> held leaves \<open>t1\<close>; and the keydown
  listener does act on \<open>ctrlKey\<close> with \<open>b\<close>.
\<close>

theorem ctrl_click_marks_thread:
  "ctrlKey ctrl_click \<and> \<not> metaKey ctrl_click \<and>
   loadingThreadId desktop_ui = Some ''t1'' \<and>
   loadingThreadId (handleThreadClick ctrl_click ''t2'' ''/agents/t2'' desktop_ui) = Some ''t2'' \<and>
   loadingThreadId (handleThreadClick cmd_click ''t2'' ''/agents/t2'' desktop_ui) = Some ''t1'' \<and>
   fst (handleKeyDown ctrl_b desktop_ui) = preventDefault ctrl_b"
  by (simp add: handleThreadClick_def ctrl_click_def cmd_click_def desktop_ui_def
      setLoadingThreadId_def handleKeyDown_def ctrl_b_def)

text \<open>
  Claim C9. In every state at most one thread id is the loading target; a click that
  marks a thread (one without \<open>metaKey\<close>) makes that thread the only target, whatever
  was marked before; and among rendered rows of threads with distinct ids at most one
  draws the spinner.
\<close>

theorem single_loading_target:
  "(isThreadLoading s a \<and> isThreadLoading s b \<longrightarrow> a = b) \<and>
   (\<not> metaKey e \<longrightarrow> (isThreadLoading (handleThreadClick e tid url s) x \<longleftrightarrow> x = tid)) \<and>
   (NavAgents t f s q = Some (Rows rs) \<and> distinct (map thread_id (threads_of q)) \<longrightarrow>
      length (filter (\<lambda>r. item_icon r = Loader2) rs) \<le> 1)"
proof (intro conjI impI)
  assume "isThreadLoading s a \<and> isThreadLoading s b"
  then show "a = b" by (auto simp: isThreadLoading_def)
next
  assume "\<not> metaKey e"
  then show "isThreadLoading (handleThreadClick e tid url s) x \<longleftrightarrow> x = tid"
    by (auto simp: isThreadLoading_def handleThreadClick_plain)
next
  assume h: "NavAgents t f s q = Some (Rows rs) \<and> distinct (map thread_id (threads_of q))"
  then have vis: "state s \<noteq> ''collapsed'' \<or> isMobile s"
    by (auto simp: NavAgents_def Let_def split: if_splits)
  have rs: "rs = map (\<lambda>thread. ThreadItem f thread (isActive (pathname s) thread)
                          (isThreadLoading s (thread_id thread))) (threads_of q)"
    using h NavAgents_visible [OF vis, of t f q] by (simp split: if_splits)
  show "length (filter (\<lambda>r. item_icon r = Loader2) rs) \<le> 1"
  proof (cases "loadingThreadId s")
    case None
    then show ?thesis unfolding rs
      by (simp add: filter_map comp_def spinner_iff isThreadLoading_def)
  next
    case (Some l)
    have pt: "\<And>th. (item_icon (ThreadItem f th (isActive (pathname s) th)
                       (isThreadLoading s (thread_id th))) = Loader2) = (thread_id th = l)"
      using Some by (auto simp: spinner_iff isThreadLoading_def)
    have "length (filter (\<lambda>r. item_icon r = Loader2) rs) =
          length (filter (\<lambda>th. thread_id th = l) (threads_of q))"
      unfolding rs by (simp add: filter_map comp_def pt)
    moreover from h have "length (filter (\<lambda>th. thread_id th = l) (threads_of q)) \<le> 1"
      by (intro filter_key_distinct) simp
    ultimately show ?thesis by simp
  qed
qed

theorem single_loading_target_witness:
  "\<not> metaKey plain_click \<and>
   isThreadLoading desktop_ui ''t1'' \<and>
   isThreadLoading (handleThreadClick plain_click ''abc'' ''/agents/abc'' desktop_ui) ''abc'' \<and>
   \<not> isThreadLoading (handleThreadClick plain_click ''abc'' ''/agents/abc'' desktop_ui) ''t1'' \<and>
   distinct (map thread_id (threads_of two_threads)) \<and>
   NavAgents id id (handleThreadClick plain_click ''abc'' ''/agents/abc'' desktop_ui) two_threads =
     Some (Rows [ThreadItem id thread_abc True True, ThreadItem id thread_xyz False False]) \<and>
   length (filter (\<lambda>r. item_icon r = Loader2)
             [ThreadItem id thread_abc True True, ThreadItem id thread_xyz False False]) \<le> 1"
proof -
  let ?s = "handleThreadClick plain_click ''abc'' ''/agents/abc'' desktop_ui"
  let ?rs = "[ThreadItem id thread_abc True True, ThreadItem id thread_xyz False False]"
  have m: "\<not> metaKey plain_click" by (simp add: plain_click_def)
  have b: "isThreadLoading desktop_ui ''t1''"
    by (simp add: isThreadLoading_def desktop_ui_def)
  have d: "distinct (map thread_id (threads_of two_threads))"
    by (simp add: threads_of_def two_threads_def thread_abc_def thread_xyz_def)
  have s: "?s = desktop_ui\<lparr>loadingThreadId := Some ''abc''\<rparr>"
    by (simp add: handleThreadClick_def plain_click_def setLoadingThreadId_def desktop_ui_def)
  have r: "NavAgents id id ?s two_threads = Some (Rows ?rs)"
    unfolding s
    by (simp add: NavAgents_def Let_def state_def desktop_ui_def two_threads_def threads_of_def
        isActive_def isThreadLoading_def thread_abc_def thread_xyz_def startsWith_def)
  from single_loading_target [where s = desktop_ui and e = plain_click and tid = "''abc''"
      and url = "''/agents/abc''" and x = "''abc''"]
    single_loading_target [where s = desktop_ui and e = plain_click and tid = "''abc''"
      and url = "''/agents/abc''" and x = "''t1''"]
    single_loading_target [where s = ?s and t = id and f = id and q = two_threads and rs = ?rs]
    m b d r
  show ?thesis by auto
qed


section \<open>Layout shell\<close>

text \<open>
  Claim C2. What the layout shell renders is determined by the health query: nothing
  while the check is in flight; once it is not, the maintenance view (which has no
  sidebar) iff the status is not exactly \<^verbatim>\<open>ok\<close> (or there is no response) or an error is
  present; and otherwise the application shell, which has the sidebar.
\<close>

theorem layout_by_health:
  "(isLoading h \<longrightarrow> DashboardLayoutContent h c = None) \<and>
   (\<not> isLoading h \<longrightarrow>
      (DashboardLayoutContent h c = Some MaintenancePage \<longleftrightarrow>
         map_option status (data h) \<noteq> Some ''ok'' \<or> error h \<noteq> None)) \<and>
   \<not> has_sidebar MaintenancePage \<and>
   (\<not> isLoading h \<and> map_option status (data h) = Some ''ok'' \<and> error h = None \<longrightarrow>
      DashboardLayoutContent h c =
        Some (SidebarProvider [SidebarLeft,
                SidebarInset [Div ''bg-background'' c, PresentationViewerWrapper],
                Fragment [FloatingMobileMenuButton]]) \<and>
      has_sidebar (SidebarProvider [SidebarLeft,
                SidebarInset [Div ''bg-background'' c, PresentationViewerWrapper],
                Fragment [FloatingMobileMenuButton]]))"
  by (simp add: DashboardLayoutContent_def isApiHealthy_def AppProviders_def)

theorem layout_by_health_witness:
  "isLoading health_pending \<and> DashboardLayoutContent health_pending [Page] = None \<and>
   \<not> isLoading health_degraded \<and> map_option status (data health_degraded) \<noteq> Some ''ok'' \<and>
   DashboardLayoutContent health_degraded [Page] = Some MaintenancePage \<and>
   \<not> isLoading health_failed \<and> error health_failed \<noteq> None \<and>
   DashboardLayoutContent health_failed [Page] = Some MaintenancePage \<and>
   \<not> isLoading health_ok \<and> map_option status (data health_ok) = Some ''ok'' \<and>
   error health_ok = None \<and>
   DashboardLayoutContent health_ok [Page] =
     Some (SidebarProvider [SidebarLeft,
             SidebarInset [Div ''bg-background'' [Page], PresentationViewerWrapper],
             Fragment [FloatingMobileMenuButton]])"
proof -
  have p: "isLoading health_pending" by (simp add: health_pending_def)
  have d: "\<not> isLoading health_degraded" "map_option status (data health_degraded) \<noteq> Some ''ok''"
    by (simp_all add: health_degraded_def)
  have f: "\<not> isLoading health_failed" "error health_failed \<noteq> None"
    by (simp_all add: health_failed_def)
  have k: "\<not> isLoading health_ok" "map_option status (data health_ok) = Some ''ok''"
     "error health_ok = None"
    by (simp_all add: health_ok_def)
  from layout_by_health [of health_pending "[Page]"] layout_by_health [of health_degraded "[Page]"]
    layout_by_health [of health_failed "[Page]"] layout_by_health [of health_ok "[Page]"]
    p d f k
  show ?thesis by simp
qed

end
